theory Spec2Isabelle
  imports Main "HOL-Library.Word"
begin

section \<open>Errors\<close>

text \<open>
  Go error values. The errors built by \<^verbatim>\<open>fmt.Errorf\<close> in \<^verbatim>\<open>client.go\<close> are
  constructors that keep the formatted arguments (the container identifier cut to twelve
  characters by \<^verbatim>\<open>%.12s\<close>, the wrapped error); \<open>Failure\<close> stands for any error
  value produced by a collaborator (cache store, engine, terminal, command).
\<close>

datatype error =
    Failure string
  | ErrNoSuchImage
  | NoSuchContainer string
  | NonTtyInput
  | AttachFailed string error
  | MonitorTtyFailed string error
  | ContainerExited string int
  | CheckImageFailed string error
  | CreateContainerFailed string string error

section \<open>Data model\<close>

text \<open>
  The types of the external docker client library, with the fields the source reads:
  \<^verbatim>\<open>docker.Config\<close>, \<^verbatim>\<open>docker.HostConfig\<close>, \<^verbatim>\<open>docker.Image\<close> (sizes are
  \<^verbatim>\<open>int64\<close>) and \<^verbatim>\<open>docker.Container\<close>.
\<close>

record docker_Config =
  Image :: string
  Env :: "string list"
  Volumes :: "string set"

type_synonym docker_HostConfig = "string list"

record docker_Image =
  Size :: "64 word"
  VirtualSize :: "64 word"

record docker_Container =
  ID :: string

text \<open>\<^verbatim>\<open>type Config struct\<close> of \<^verbatim>\<open>build.go\<close>; the two stream handles are left out.\<close>

record Config =
  ContextDir :: string
  ID :: string
  Dockerignore :: "string list"
  ArtifactsPath :: string
  Pull :: bool
  NoGarbage :: bool
  Attach :: bool
  Verbose :: bool
  NoCache :: bool
  ReloadCache :: bool
  Push :: bool

text \<open>
  Modelled from the spec: the \<^verbatim>\<open>State\<close> struct and its method \<^verbatim>\<open>CleanCommits\<close>
  are declared in a file of the package that is not part of the sources at hand. The
  fields are those that \<^verbatim>\<open>build.go\<close> and \<^verbatim>\<open>client.go\<close> read
  (\<^verbatim>\<open>Config\<close>, \<^verbatim>\<open>ImageID\<close>, \<^verbatim>\<open>InjectCommands\<close>,
  \<^verbatim>\<open>NoCache.ContainerID\<close>, \<^verbatim>\<open>NoCache.HostConfig\<close>, \<^verbatim>\<open>NoCache.CacheBusted\<close>)
  and, for the spec's "transient commit-intent fields", the list \<open>Commits\<close> of pending
  commit messages, which \<open>CleanCommits\<close> empties.
\<close>

record StateNoCache =
  ContainerID :: string
  HostConfig :: docker_HostConfig
  CacheBusted :: bool

record State =
  Config :: docker_Config
  ImageID :: string
  NoCache :: StateNoCache
  InjectCommands :: "string list"
  Commits :: "string list"

text \<open>
  Modelled from the spec: \<^verbatim>\<open>CleanCommits\<close>, a method of \<^verbatim>\<open>State\<close> outside the
  sources at hand, strips "any transient commit-intent fields" of the state.
\<close>

definition CleanCommits :: "State \<Rightarrow> State" where
  "CleanCommits s = s\<lparr>Commits := []\<rparr>"

text \<open>
  The collaborators are Go interfaces whose implementations keep their data outside the
  build object (cache directory, engine daemon). Their data is the world \<open>'w\<close>; every
  method takes the world and returns the new one. A Go result pair
  \<^verbatim>\<open>(*T, error)\<close> is a pair of options: \<open>None\<close> is \<^verbatim>\<open>nil\<close>.

  \<open>Cache\<close>: the methods of the cache store that \<^verbatim>\<open>probeCache\<close> calls.
  \<open>Client\<close>: of \<^verbatim>\<open>type Client interface\<close>, the method that \<^verbatim>\<open>probeCache\<close> calls.
\<close>

record 'w Cache =
  Get :: "State \<Rightarrow> 'w \<Rightarrow> (State option \<times> error option) \<times> 'w"
  Del :: "State \<Rightarrow> 'w \<Rightarrow> error option \<times> 'w"

record 'w Client =
  InspectImage :: "string \<Rightarrow> 'w \<Rightarrow> (docker_Image option \<times> error option) \<times> 'w"

text \<open>
  \<^verbatim>\<open>type Build struct\<close>. A nil \<^verbatim>\<open>cache\<close> is \<open>None\<close>. The field \<open>world\<close> is what
  \<^verbatim>\<open>cache\<close> and \<^verbatim>\<open>client\<close> point to. The \<^verbatim>\<open>rockerfile\<close> pointer is read by none of
  the functions below.
\<close>

record 'w Build =
  ProducedSize :: "64 word"
  VirtualSize :: "64 word"
  cache :: "'w Cache option"
  cfg :: Config
  client :: "'w Client"
  state :: State
  exports :: "string list"
  world :: 'w

section \<open>Cache probe\<close>

text \<open>
  What \<^verbatim>\<open>probeCache\<close> does to its collaborators, in order: the calls on the cache
  store and on the client, and the lines it logs.
\<close>

datatype call =
    CacheGet State
  | CacheDel State
  | ClientInspectImage string
  | LogInfo string

definition bust :: "State \<Rightarrow> State" where
  \<comment> \<open>\<^verbatim>\<open>s.NoCache.CacheBusted = true\<close>\<close>
  "bust s = s\<lparr>NoCache := (NoCache s)\<lparr>CacheBusted := True\<rparr>\<rparr>"

text \<open>
  \<^verbatim>\<open>func (b *Build) probeCache(s State) (cachedState State, hit bool, err error)\<close>.
  The result is the returned triple, the build object afterwards and the calls made.
  \<^verbatim>\<open>defer b.cache.Del(*s2)\<close> runs \<open>Del\<close> when the function returns, after the log
  line, and drops what \<open>Del\<close> returns.
\<close>

definition probeCache ::
  "'w Build \<Rightarrow> State \<Rightarrow> (State \<times> bool \<times> error option) \<times> 'w Build \<times> call list" where
  "probeCache b s =
    (case cache b of
       None \<Rightarrow> ((s, False, None), b, [])
     | Some ca \<Rightarrow>
        if CacheBusted (NoCache s) then ((s, False, None), b, [])
        else
          (case Get ca s (world b) of ((r, err), w1) \<Rightarrow>
            (case err of
               Some e \<Rightarrow> ((s, False, Some e), b\<lparr>world := w1\<rparr>, [CacheGet s])
             | None \<Rightarrow>
                (case r of
                   None \<Rightarrow>
                     ((bust s, False, None), b\<lparr>world := w1\<rparr>,
                      [CacheGet s, LogInfo ''| Not cached''])
                 | Some s2 \<Rightarrow>
                     if ReloadCache (cfg b) then
                       (case Del ca s2 w1 of (_, w2) \<Rightarrow>
                         ((bust s, False, None), b\<lparr>world := w2\<rparr>,
                          [CacheGet s, LogInfo ''| Reload cache'', CacheDel s2]))
                     else
                       (case InspectImage (client b) (ImageID s2) w1 of ((img, err2), w2) \<Rightarrow>
                         (case err2 of
                            Some e \<Rightarrow>
                              ((s, True, Some e), b\<lparr>world := w2\<rparr>,
                               [CacheGet s, ClientInspectImage (ImageID s2)])
                          | None \<Rightarrow>
                             (case img of
                                None \<Rightarrow>
                                  (case Del ca s2 w2 of (_, w3) \<Rightarrow>
                                    ((bust s, False, None), b\<lparr>world := w3\<rparr>,
                                     [CacheGet s, ClientInspectImage (ImageID s2),
                                      LogInfo ''| Not cached'', CacheDel s2]))
                              | Some i \<Rightarrow>
                                  ((CleanCommits (s2\<lparr>NoCache := NoCache s\<rparr>), True, None),
                                   b\<lparr>world := w2,
                                     ProducedSize := ProducedSize b + Size i,
                                     VirtualSize := docker_Image.VirtualSize i\<rparr>,
                                   [CacheGet s, ClientInspectImage (ImageID s2),
                                    LogInfo (''| Cached! Take image '' @ take 12 (ImageID s2))]))))))))"

section \<open>Plan executor\<close>

text \<open>
  The \<^verbatim>\<open>Command\<close> interface is declared outside the sources at hand; \<^verbatim>\<open>Run\<close> uses
  three of its capabilities. A command is the triple of them: \<^verbatim>\<open>ShouldRun(b)\<close> and
  \<^verbatim>\<open>Execute(b)\<close> get the build object and may change it, \<^verbatim>\<open>ReplaceEnv(env)\<close>
  exists only on a command that is an \<^verbatim>\<open>EnvReplacableCommand\<close> and changes the command
  itself: it yields the command as it is afterwards.
\<close>

datatype 'w Command = Command
  (ShouldRun: "'w Build \<Rightarrow> (bool \<times> error option) \<times> 'w Build")
  (Execute: "'w Build \<Rightarrow> (State \<times> error option) \<times> 'w Build")
  (ReplaceEnv: "(string list \<Rightarrow> 'w Command) option")

type_synonym 'w Plan = "'w Command list"

text \<open>
  \<^verbatim>\<open>parseOnbuildCommands\<close> and \<^verbatim>\<open>NewPlan\<close> are functions of the package outside the
  sources at hand: they are parameters, \<open>'cc\<close> being the type of a parsed instruction.
\<close>

record ('cc, 'w) PlanSource =
  parseOnbuildCommands :: "string list \<Rightarrow> error + 'cc list"
  NewPlan :: "'cc list \<Rightarrow> bool \<Rightarrow> error + 'w Plan"

text \<open>
  What \<^verbatim>\<open>Run\<close> does with the commands of the plan, in order: the three log lines of the
  loop body and the calls of \<^verbatim>\<open>ShouldRun\<close>, \<^verbatim>\<open>ReplaceEnv\<close> and \<^verbatim>\<open>Execute\<close>, each
  with the plan element \<^verbatim>\<open>plan[k]\<close> it is called on.
\<close>

datatype 'w event =
    LogDebugStep nat "'w Command"
  | CallShouldRun "'w Command"
  | CallReplaceEnv "'w Command" "string list"
  | LogInfoCommand "'w Command"
  | CallExecute "'w Command"
  | LogDebugState nat State

datatype 'w outcome = Abort error | Done | Inject "'w Plan"

definition replaceEnv :: "'w Command \<Rightarrow> 'w Build \<Rightarrow> 'w Command \<times> 'w event list" where
  \<comment> \<open>\<^verbatim>\<open>if c, ok := c.(EnvReplacableCommand); ok { c.ReplaceEnv(b.state.Config.Env) }\<close>\<close>
  "replaceEnv c b =
    (case ReplaceEnv c of
       None \<Rightarrow> (c, [])
     | Some f \<Rightarrow> (f (Env (Config (state b))), [CallReplaceEnv c (Env (Config (state b)))]))"

text \<open>
  The body of the loop of \<^verbatim>\<open>Run\<close> for \<^verbatim>\<open>c := plan[k]\<close>, up to the splice:
  \<open>Abort\<close> is a \<^verbatim>\<open>return err\<close>, \<open>Done\<close> the end of the iteration or \<^verbatim>\<open>continue\<close>,
  \<open>Inject subPlan\<close> the iteration that has a sub-plan to splice and has emptied
  \<^verbatim>\<open>b.state.InjectCommands\<close>. \<^verbatim>\<open>b.state, err = c.Execute(b)\<close> assigns the state before
  the error is looked at.
\<close>

definition Run_step ::
  "('cc, 'w) PlanSource \<Rightarrow> nat \<Rightarrow> 'w Command \<Rightarrow> 'w Build \<Rightarrow>
     'w outcome \<times> 'w Build \<times> 'w event list" where
  "Run_step ps k c b =
    (case ShouldRun c b of ((doRun, err), b1) \<Rightarrow>
      (case err of
         Some e \<Rightarrow> (Abort e, b1, [LogDebugStep (k + 1) c, CallShouldRun c])
       | None \<Rightarrow>
          if \<not> doRun then (Done, b1, [LogDebugStep (k + 1) c, CallShouldRun c])
          else
            (case replaceEnv c b1 of (c', evs) \<Rightarrow>
              (case Execute c' b1 of ((s', err'), b2) \<Rightarrow>
                (let b3 = b2\<lparr>state := s'\<rparr>;
                     tr = [LogDebugStep (k + 1) c, CallShouldRun c] @ evs
                            @ [LogInfoCommand c, CallExecute c]
                 in case err' of
                      Some e \<Rightarrow> (Abort e, b3, tr)
                    | None \<Rightarrow>
                       if length (InjectCommands (state b3)) > 0 then
                         (case parseOnbuildCommands ps (InjectCommands (state b3)) of
                            Inl e \<Rightarrow> (Abort e, b3, tr @ [LogDebugState (k + 1) s'])
                          | Inr commands \<Rightarrow>
                             (case NewPlan ps commands False of
                                Inl e \<Rightarrow> (Abort e, b3, tr @ [LogDebugState (k + 1) s'])
                              | Inr subPlan \<Rightarrow>
                                 (Inject subPlan,
                                  b3\<lparr>state := (state b3)\<lparr>InjectCommands := []\<rparr>\<rparr>,
                                  tr @ [LogDebugState (k + 1) s'])))
                       else (Done, b3, tr @ [LogDebugState (k + 1) s']))))))"

text \<open>
  The loop \<^verbatim>\<open>for k := 0; k < len(plan); k++\<close>. The plan grows while it is consumed
  (\<^verbatim>\<open>tail := append(subPlan, plan[k+1:]...); plan = append(plan[:k+1], tail...)\<close>), so the
  loop need not end: a run that never returns is \<open>None\<close>. A run that returns yields the
  returned error, the build object and the events so far.
\<close>

partial_function (option) Run_loop ::
  "('cc, 'w) PlanSource \<Rightarrow> nat \<Rightarrow> 'w Plan \<Rightarrow> 'w Build \<Rightarrow> 'w event list \<Rightarrow>
     (error option \<times> 'w Build \<times> 'w event list) option" where
  "Run_loop ps k plan b tr =
    (if k < length plan then
       (case Run_step ps k (plan ! k) b of (out, b', evs) \<Rightarrow>
         (case out of
            Abort e \<Rightarrow> Some (Some e, b', tr @ evs)
          | Done \<Rightarrow> Run_loop ps (k + 1) plan b' (tr @ evs)
          | Inject subPlan \<Rightarrow>
              Run_loop ps (k + 1) (take (k + 1) plan @ (subPlan @ drop (k + 1) plan)) b'
                (tr @ evs)))
     else Some (None, b, tr))"

definition Run ::
  "('cc, 'w) PlanSource \<Rightarrow> 'w Plan \<Rightarrow> 'w Build \<Rightarrow>
     (error option \<times> 'w Build \<times> 'w event list) option" where
  "Run ps plan b = Run_loop ps 0 plan b []"

text \<open>
  The commands on which \<^verbatim>\<open>ShouldRun\<close>, and those on which \<^verbatim>\<open>Execute\<close>, was called,
  in the order of the calls.
\<close>

fun visited :: "'w event list \<Rightarrow> 'w Command list" where
  "visited [] = []"
| "visited (CallShouldRun c # es) = c # visited es"
| "visited (e # es) = visited es"

fun executed :: "'w event list \<Rightarrow> 'w Command list" where
  "executed [] = []"
| "executed (CallExecute c # es) = c # executed es"
| "executed (e # es) = executed es"

text \<open>
  The loop body run on the steps \<open>cs\<close>, standing at the indices \<open>k, k + 1, ...\<close> of
  the plan, one after the other from \<open>b\<close>, none of them aborting the run or injecting
  commands: the build object and the events they leave. It is used in the proofs only.
\<close>

fun steps_plain ::
  "('cc, 'w) PlanSource \<Rightarrow> nat \<Rightarrow> 'w Command list \<Rightarrow> 'w Build \<Rightarrow>
     ('w Build \<times> 'w event list) option" where
  "steps_plain ps k [] b = Some (b, [])"
| "steps_plain ps k (c # cs) b =
    (case Run_step ps k c b of
       (Done, b', evs) \<Rightarrow>
         (case steps_plain ps (k + 1) cs b' of
            None \<Rightarrow> None
          | Some (b'', evs') \<Rightarrow> Some (b'', evs @ evs'))
     | _ \<Rightarrow> None)"

text \<open>
  The steps of the spec's plan executor, for steps that neither abort the run nor inject
  commands, written from the spec's words and not from the loop above: for each step in
  order, (a) call \<open>ShouldRun\<close> and skip the step if it says false; (b) if the step
  supports environment substitution, resolve it with the environment accumulated so far;
  (c) execute, the returned state becoming the state of the build. The result is the
  build object after the last step and the steps that were executed, in order; \<open>None\<close>
  when a step fails its check or its execution, or leaves commands to inject.
\<close>

fun spec_steps :: "'w Command list \<Rightarrow> 'w Build \<Rightarrow> ('w Build \<times> 'w Command list) option" where
  "spec_steps [] b = Some (b, [])"
| "spec_steps (c # cs) b =
    (case ShouldRun c b of ((doRun, err), b1) \<Rightarrow>
      if err \<noteq> None then None
      else if \<not> doRun then spec_steps cs b1
      else
        (case Execute (case ReplaceEnv c of
                         None \<Rightarrow> c
                       | Some f \<Rightarrow> f (Env (Config (state b1)))) b1 of
           ((s', err'), b2) \<Rightarrow>
             if err' \<noteq> None \<or> InjectCommands s' \<noteq> [] then None
             else
               (case spec_steps cs (b2\<lparr>state := s'\<rparr>) of
                  None \<Rightarrow> None
                | Some (b', exs) \<Rightarrow> Some (b', c # exs))))"

section \<open>Engine client: pull, ensure-image and ensure-container\<close>








section \<open>Interactive run coordinator\<close>

text \<open>
  \<^verbatim>\<open>RunContainer\<close> starts two goroutines and waits in one \<^verbatim>\<open>select\<close>. What the
  terminal, the engine and the scheduler answer during one call is the input \<open>RunEnv\<close>:
  whether standard input is a terminal, the error of \<^verbatim>\<open>term.SetRawTerminal\<close>, whether
  the attach goroutine reports the hijacked connection on \<^verbatim>\<open>success\<close> (the main
  goroutine waits for it in \<^verbatim>\<open>success <- <-success\<close>), the errors of
  \<^verbatim>\<open>StartContainer\<close>, of \<^verbatim>\<open>monitorTtySize\<close> and of \<^verbatim>\<open>RemoveContainer\<close>, and the
  case of the \<^verbatim>\<open>select\<close> that is taken: a value received from \<^verbatim>\<open>errch\<close> (sent by the
  goroutine around \<^verbatim>\<open>WaitContainer\<close>, given by the status code and the error of that
  call), an error received from \<^verbatim>\<open>attacherr\<close>, or a signal received from \<^verbatim>\<open>sigch\<close>.
\<close>

datatype select_case =
    FromErrch int "error option"
  | FromAttacherr error
  | FromSigch

record RunEnv =
  isTerminalIn :: bool
  setRawTerminal :: "error option"
  attachHijacked :: bool
  startContainer :: "error option"
  monitorTtySize :: "error option"
  selected :: select_case
  removeContainer :: "error option"

datatype run_event =
    LogInfoAttachStdin string
  | LogDebugAttachOptions
  | SetRawTerminal
  | RestoreTerminal
  | GoAttachToContainer
  | ReceiveSuccess
  | StartContainer string
  | MonitorTtySize string
  | SignalNotify
  | GoWaitContainer string
  | SendFinished
  | LogInfoReceivedSigint
  | RemoveContainer string
  | LogErrorRemove error
  | OsExit int

text \<open>
  How a call ends: it returns an error or nil, the process exits with a status, or the
  call waits for ever.
\<close>

datatype run_result = Returns "error option" | Exits int | Blocks

definition wait_error :: "string \<Rightarrow> int \<Rightarrow> error option \<Rightarrow> error option" where
  \<comment> \<open>the first value that the goroutine around \<^verbatim>\<open>WaitContainer\<close> sends on \<^verbatim>\<open>errch\<close>\<close>
  "wait_error containerID statusCode err =
    (case err of
       Some e \<Rightarrow> Some e
     | None \<Rightarrow>
        if statusCode \<noteq> 0 then Some (ContainerExited (take 12 containerID) statusCode)
        else None)"

text \<open>\<^verbatim>\<open>RunContainer\<close> from the start of the attach goroutine to its end.\<close>

definition run_attached :: "RunEnv \<Rightarrow> string \<Rightarrow> bool \<Rightarrow> run_result \<times> run_event list" where
  "run_attached env containerID attachStdin =
    (if \<not> attachHijacked env then (Blocks, [GoAttachToContainer])
     else
      (case startContainer env of
         Some e \<Rightarrow>
           (Returns (Some e), [GoAttachToContainer, ReceiveSuccess, StartContainer containerID])
       | None \<Rightarrow>
          (case (if attachStdin then monitorTtySize env else None) of
             Some e \<Rightarrow>
               (Returns (Some (MonitorTtyFailed (take 12 containerID) e)),
                [GoAttachToContainer, ReceiveSuccess, StartContainer containerID,
                 MonitorTtySize containerID])
           | None \<Rightarrow>
              (let pre = [GoAttachToContainer, ReceiveSuccess, StartContainer containerID]
                     @ (if attachStdin then [MonitorTtySize containerID] else [])
                     @ [SignalNotify, GoWaitContainer containerID]
               in case selected env of
                    FromErrch statusCode err \<Rightarrow>
                      (Returns (wait_error containerID statusCode err), pre @ [SendFinished])
                  | FromAttacherr e \<Rightarrow>
                      (Returns (Some (AttachFailed (take 12 containerID) e)), pre)
                  | FromSigch \<Rightarrow>
                      (Exits 2,
                       pre @ [LogInfoReceivedSigint, RemoveContainer containerID]
                         @ (case removeContainer env of
                              Some e \<Rightarrow> [LogErrorRemove e]
                            | None \<Rightarrow> [])
                         @ [OsExit 2])))))"

definition deferred ::
  "run_event \<Rightarrow> run_result \<times> run_event list \<Rightarrow> run_result \<times> run_event list" where
  \<comment> \<open>\<^verbatim>\<open>defer\<close>: the call runs when the function returns; \<^verbatim>\<open>os.Exit\<close> runs no deferred call\<close>
  "deferred ev r =
    (case r of
       (Returns e, evs) \<Rightarrow> (Returns e, evs @ [ev])
     | (Exits n, evs) \<Rightarrow> (Exits n, evs)
     | (Blocks, evs) \<Rightarrow> (Blocks, evs))"

definition prefixed ::
  "run_event list \<Rightarrow> run_result \<times> run_event list \<Rightarrow> run_result \<times> run_event list" where
  "prefixed pre r = (fst r, pre @ snd r)"

text \<open>\<^verbatim>\<open>func (c *DockerClient) RunContainer(containerID string, attachStdin bool) error\<close>\<close>

definition DockerClient_RunContainer ::
  "RunEnv \<Rightarrow> string \<Rightarrow> bool \<Rightarrow> run_result \<times> run_event list" where
  "DockerClient_RunContainer env containerID attachStdin =
    (if attachStdin then
       if \<not> isTerminalIn env then
         (Returns (Some NonTtyInput), [LogInfoAttachStdin (take 12 containerID)])
       else
         (case setRawTerminal env of
            Some e \<Rightarrow>
              (Returns (Some e),
               [LogInfoAttachStdin (take 12 containerID), LogDebugAttachOptions, SetRawTerminal])
          | None \<Rightarrow>
              prefixed
                [LogInfoAttachStdin (take 12 containerID), LogDebugAttachOptions, SetRawTerminal]
                (deferred RestoreTerminal (run_attached env containerID attachStdin)))
     else prefixed [LogDebugAttachOptions] (run_attached env containerID attachStdin))"

section \<open>Contracts of the collaborators\<close>

text \<open>
  The cache store honours a deletion: after \<open>Del\<close> has returned without error for an
  entry, no lookup on the resulting store returns that entry.
\<close>

definition Del_removes :: "'w Cache \<Rightarrow> bool" where
  "Del_removes ca \<longleftrightarrow>
     (\<forall>e w w' q. Del ca e w = (None, w') \<longrightarrow> fst (fst (Get ca q w')) \<noteq> Some e)"



section \<open>Example inputs\<close>

text \<open>
  Concrete collaborators and inputs, on which the theorems below are instantiated.

  A cache store kept in memory: the world is the list of its entries, each under the
  image identifier of the state it was stored for. \<open>readonly_Cache\<close> is the same store
  on a medium that refuses deletions, \<open>unreadable_Cache\<close> one whose lookups fail.
\<close>

type_synonym entries = "(string \<times> State) list"

definition mem_Cache :: "entries Cache" where
  "mem_Cache =
    \<lparr>Get = (\<lambda>s w. ((map_of w (ImageID s), None), w)),
     Del = (\<lambda>e w. (None, filter (\<lambda>kv. snd kv \<noteq> e) w))\<rparr>"

definition readonly_Cache :: "entries Cache" where
  "readonly_Cache =
    \<lparr>Get = (\<lambda>s w. ((map_of w (ImageID s), None), w)),
     Del = (\<lambda>e w. (Some (Failure ''read-only file system''), w))\<rparr>"

definition unreadable_Cache :: "entries Cache" where
  "unreadable_Cache =
    \<lparr>Get = (\<lambda>s w. ((None, Some (Failure ''permission denied'')), w)),
     Del = (\<lambda>e w. (None, w))\<rparr>"

text \<open>A client on whose engine the one image \<open>''img1''\<close> exists.\<close>

definition ex_Client :: "entries Client" where
  "ex_Client =
    \<lparr>InspectImage =
       (\<lambda>n w. ((if n = ''img1'' then Some \<lparr>Size = 10, VirtualSize = 100\<rparr> else None, None), w))\<rparr>"

definition ex_cfg :: "bool \<Rightarrow> Config" where
  "ex_cfg reload =
    \<lparr>ContextDir = ''.'', ID = [], Dockerignore = [], ArtifactsPath = [], Pull = False,
     NoGarbage = False, Attach = False, Verbose = False, NoCache = False,
     ReloadCache = reload, Push = False\<rparr>"

text \<open>
  The state that is probed, a cached state found for it whose image exists, with a
  pending commit and the step-local fields of an earlier run, and a cached state whose
  image is gone.
\<close>

definition ex_state :: State where
  "ex_state =
    \<lparr>Config = \<lparr>Image = ''base'', Env = [''A=1''], Volumes = {}\<rparr>, ImageID = ''base'',
     NoCache = \<lparr>ContainerID = ''c1'', HostConfig = [], CacheBusted = False\<rparr>,
     InjectCommands = [], Commits = []\<rparr>"

definition ex_cached :: State where
  "ex_cached =
    \<lparr>Config = \<lparr>Image = ''base'', Env = [''A=1''], Volumes = {}\<rparr>, ImageID = ''img1'',
     NoCache = \<lparr>ContainerID = ''c0'', HostConfig = [''/old''], CacheBusted = True\<rparr>,
     InjectCommands = [], Commits = [''RUN make'']\<rparr>"

definition ex_stale :: State where
  "ex_stale =
    \<lparr>Config = \<lparr>Image = ''base'', Env = [''A=1''], Volumes = {}\<rparr>, ImageID = ''img0'',
     NoCache = \<lparr>ContainerID = ''c0'', HostConfig = [], CacheBusted = False\<rparr>,
     InjectCommands = [], Commits = []\<rparr>"

definition ex_build :: "entries Cache option \<Rightarrow> bool \<Rightarrow> entries \<Rightarrow> entries Build" where
  "ex_build ca reload w =
    \<lparr>ProducedSize = 5, VirtualSize = 0, cache = ca, cfg = ex_cfg reload, client = ex_Client,
     state = ex_state, exports = [], world = w\<rparr>"

text \<open>
  Commands: one that runs and leaves the state as it is, one that is skipped, one that
  queues an instruction for injection (as a step does that finds on-build triggers in its
  base image), one whose \<^verbatim>\<open>ShouldRun\<close> fails, one whose \<^verbatim>\<open>Execute\<close> fails and which
  supports \<^verbatim>\<open>ReplaceEnv\<close>. The plan source turns every injected instruction into
  \<open>cmd_run\<close>.
\<close>

definition cmd_run :: "entries Command" where
  "cmd_run = Command (\<lambda>b. ((True, None), b)) (\<lambda>b. ((state b, None), b)) None"

definition cmd_skip :: "entries Command" where
  "cmd_skip = Command (\<lambda>b. ((False, None), b)) (\<lambda>b. ((state b, None), b)) None"

definition cmd_from :: "entries Command" where
  "cmd_from =
    Command (\<lambda>b. ((True, None), b))
      (\<lambda>b. (((state b)\<lparr>InjectCommands := [''RUN make test'']\<rparr>, None), b)) None"

definition cmd_bad_check :: "entries Command" where
  "cmd_bad_check =
    Command (\<lambda>b. ((False, Some (Failure ''bad arguments'')), b)) (\<lambda>b. ((state b, None), b)) None"

definition cmd_bad_exec :: "entries Command" where
  "cmd_bad_exec =
    Command (\<lambda>b. ((True, None), b)) (\<lambda>b. ((state b, Some (Failure ''exit 1'')), b))
      (Some (\<lambda>env. Command (\<lambda>b. ((True, None), b))
                      (\<lambda>b. ((state b, Some (Failure ''exit 1'')), b)) None))"

definition ex_source :: "(string, entries) PlanSource" where
  "ex_source =
    \<lparr>parseOnbuildCommands = (\<lambda>cmds. Inr cmds),
     NewPlan = (\<lambda>commands final. Inr (map (\<lambda>x. cmd_run) commands))\<rparr>"




text \<open>
  Runs of a container: an interactive run on a terminal that is interrupted while the
  container runs, a detached run that is interrupted and whose container cannot be
  removed, an interactive run whose standard input is a pipe.
\<close>

definition env_interrupted :: RunEnv where
  "env_interrupted =
    \<lparr>isTerminalIn = True, setRawTerminal = None, attachHijacked = True,
     startContainer = None, monitorTtySize = None, selected = FromSigch,
     removeContainer = None\<rparr>"

definition env_interrupted_detached :: RunEnv where
  "env_interrupted_detached =
    \<lparr>isTerminalIn = False, setRawTerminal = None, attachHijacked = True,
     startContainer = None, monitorTtySize = None, selected = FromSigch,
     removeContainer = Some (Failure ''no such container'')\<rparr>"

definition env_piped :: RunEnv where
  "env_piped =
    \<lparr>isTerminalIn = False, setRawTerminal = None, attachHijacked = True,
     startContainer = None, monitorTtySize = None, selected = FromErrch 0 None,
     removeContainer = None\<rparr>"

text \<open>
  Plans: one whose second step injects, one whose first step fails its check, one whose
  only step is skipped, one whose first step fails in execution.
\<close>

definition ex_plan :: "entries Plan" where
  "ex_plan = [cmd_run, cmd_from, cmd_skip]"

text \<open>The events of the run of \<open>ex_plan\<close> from \<open>ex_build None False []\<close>.\<close>

definition ex_trace :: "entries event list" where
  "ex_trace =
    [LogDebugStep 1 cmd_run, CallShouldRun cmd_run, LogInfoCommand cmd_run, CallExecute cmd_run,
     LogDebugState 1 ex_state,
     LogDebugStep 2 cmd_from, CallShouldRun cmd_from, LogInfoCommand cmd_from,
     CallExecute cmd_from, LogDebugState 2 (ex_state\<lparr>InjectCommands := [''RUN make test'']\<rparr>),
     LogDebugStep 3 cmd_run, CallShouldRun cmd_run, LogInfoCommand cmd_run, CallExecute cmd_run,
     LogDebugState 3 ex_state,
     LogDebugStep 4 cmd_skip, CallShouldRun cmd_skip]"

section \<open>Cache probe: properties\<close>

lemma ex_build_simps:
  "cache (ex_build ca reload w) = ca"
  "ReloadCache (cfg (ex_build ca reload w)) = reload"
  "client (ex_build ca reload w) = ex_Client"
  "world (ex_build ca reload w) = w"
  "state (ex_build ca reload w) = ex_state"
  "(ex_build ca reload w)\<lparr>world := w'\<rparr> = ex_build ca reload w'"
  by (simp_all add: ex_build_def ex_cfg_def)

lemma ex_state_simps:
  "CacheBusted (NoCache ex_state) = False"
  "ImageID ex_state = ''base''"
  "ImageID ex_cached = ''img1''"
  "ImageID ex_stale = ''img0''"
  "InjectCommands ex_state = []"
  "Env (Config ex_state) = [''A=1'']"
  by (simp_all add: ex_state_def ex_cached_def ex_stale_def)

lemma mem_Cache_simps:
  "Get mem_Cache s w = ((map_of w (ImageID s), None), w)"
  "Del mem_Cache e w = (None, filter (\<lambda>kv. snd kv \<noteq> e) w)"
  "Get readonly_Cache s w = ((map_of w (ImageID s), None), w)"
  "Del readonly_Cache e w = (Some (Failure ''read-only file system''), w)"
  "Get unreadable_Cache s w = ((None, Some (Failure ''permission denied'')), w)"
  by (simp_all add: mem_Cache_def readonly_Cache_def unreadable_Cache_def)

lemma ex_Client_simps:
  "InspectImage ex_Client ''img1'' w = ((Some \<lparr>Size = 10, VirtualSize = 100\<rparr>, None), w)"
  "InspectImage ex_Client ''img0'' w = ((None, None), w)"
  by (simp_all add: ex_Client_def)

lemma Del_removes_mem_Cache: "Del_removes mem_Cache"
  unfolding Del_removes_def mem_Cache_simps
proof (intro allI impI)
  fix e :: State and w w' :: entries and q :: State
  assume "(None :: error option, filter (\<lambda>kv. snd kv \<noteq> e) w) = (None, w')"
  then have w': "w' = filter (\<lambda>kv. snd kv \<noteq> e) w" by simp
  show "fst (fst ((map_of w' (ImageID q), None :: error option), w')) \<noteq> Some e"
  proof
    assume "fst (fst ((map_of w' (ImageID q), None :: error option), w')) = Some e"
    then have "map_of w' (ImageID q) = Some e" by simp
    then have "(ImageID q, e) \<in> set w'" by (rule map_of_SomeD)
    then show False by (simp add: w')
  qed
qed

text \<open>
  C2. Sticky cache bust. With no cache store, or on a state whose \<open>CacheBusted\<close> flag
  is set, \<open>probeCache\<close> returns the state it was given, no hit and no error, leaves
  the build object as it is and calls nothing: the store's \<open>Get\<close> is not called. When
  the store has no entry for the state, \<open>probeCache\<close> calls \<open>Get\<close> once and returns
  the state with \<open>CacheBusted\<close> set and no hit; any later probe of that returned state,
  on any build object, is again no hit and calls nothing.
\<close>

theorem probeCache_sticky_bust:
  "(cache b = None \<or> CacheBusted (NoCache s) \<longrightarrow> probeCache b s = ((s, False, None), b, []))
   \<and> (\<forall>ca w1. cache b = Some ca \<and> \<not> CacheBusted (NoCache s)
          \<and> Get ca s (world b) = ((None, None), w1) \<longrightarrow>
        probeCache b s =
          ((bust s, False, None), b\<lparr>world := w1\<rparr>, [CacheGet s, LogInfo ''| Not cached''])
        \<and> CacheBusted (NoCache (bust s))
        \<and> (\<forall>b'. probeCache b' (bust s) = ((bust s, False, None), b', [])))"
  by (auto simp: probeCache_def bust_def split: option.splits)

theorem probeCache_sticky_bust_witness:
  "probeCache (ex_build None False [(''base'', ex_cached)]) ex_state =
     ((ex_state, False, None), ex_build None False [(''base'', ex_cached)], [])
   \<and> probeCache (ex_build (Some mem_Cache) False []) ex_state =
       ((bust ex_state, False, None), ex_build (Some mem_Cache) False [],
        [CacheGet ex_state, LogInfo ''| Not cached''])
   \<and> probeCache (ex_build (Some mem_Cache) False [(''base'', ex_cached)]) (bust ex_state) =
       ((bust ex_state, False, None), ex_build (Some mem_Cache) False [(''base'', ex_cached)], [])"
proof -
  have miss:
    "cache (ex_build (Some mem_Cache) False []) = Some mem_Cache
     \<and> \<not> CacheBusted (NoCache ex_state)
     \<and> Get mem_Cache ex_state (world (ex_build (Some mem_Cache) False [])) = ((None, None), [])"
    by (simp add: ex_build_simps ex_state_simps mem_Cache_simps)
  have busted: "CacheBusted (NoCache (bust ex_state))"
    by (simp add: bust_def)
  have none: "cache (ex_build None False [(''base'', ex_cached)]) = None"
    by (simp add: ex_build_simps)
  from probeCache_sticky_bust [of "ex_build None False [(''base'', ex_cached)]" ex_state] none
  have 1: "probeCache (ex_build None False [(''base'', ex_cached)]) ex_state =
     ((ex_state, False, None), ex_build None False [(''base'', ex_cached)], [])"
    by blast
  from probeCache_sticky_bust [of "ex_build (Some mem_Cache) False []" ex_state] miss
  have "probeCache (ex_build (Some mem_Cache) False []) ex_state =
       ((bust ex_state, False, None), (ex_build (Some mem_Cache) False [])\<lparr>world := []\<rparr>,
        [CacheGet ex_state, LogInfo ''| Not cached''])"
    by blast
  then have 2: "probeCache (ex_build (Some mem_Cache) False []) ex_state =
       ((bust ex_state, False, None), ex_build (Some mem_Cache) False [],
        [CacheGet ex_state, LogInfo ''| Not cached''])"
    by (simp add: ex_build_simps)
  from probeCache_sticky_bust
    [of "ex_build (Some mem_Cache) False [(''base'', ex_cached)]" "bust ex_state"] busted
  have 3: "probeCache (ex_build (Some mem_Cache) False [(''base'', ex_cached)]) (bust ex_state) =
       ((bust ex_state, False, None), ex_build (Some mem_Cache) False [(''base'', ex_cached)], [])"
    by blast
  from 1 2 3 show ?thesis by blast
qed

text \<open>
  C3. Cache-hit postcondition. On a genuine hit (the store returns a cached state, the
  run is not in reload mode, the engine still has the image of the cached state)
  \<open>probeCache\<close> returns the cached state with \<open>hit = True\<close> and no error; the
  \<open>NoCache\<close> sub-record of the returned state is the one of the probed state, not the
  cached one, and the returned state has no pending commit. The size of the image is
  added to \<open>ProducedSize\<close> and its virtual size becomes \<open>VirtualSize\<close>.
\<close>

theorem probeCache_hit:
  assumes "cache b = Some ca"
    and "\<not> CacheBusted (NoCache s)"
    and "Get ca s (world b) = ((Some s2, None), w1)"
    and "\<not> ReloadCache (cfg b)"
    and "InspectImage (client b) (ImageID s2) w1 = ((Some i, None), w2)"
  shows "\<exists>s' b' cs. probeCache b s = ((s', True, None), b', cs)
      \<and> s' = s2\<lparr>NoCache := NoCache s, Commits := []\<rparr>
      \<and> NoCache s' = NoCache s \<and> Commits s' = []
      \<and> ProducedSize b' = ProducedSize b + Size i
      \<and> Build.VirtualSize b' = docker_Image.VirtualSize i"
  using assms by (simp add: probeCache_def CleanCommits_def)

theorem probeCache_hit_witness:
  "\<exists>s' b' cs.
     probeCache (ex_build (Some mem_Cache) False [(''base'', ex_cached)]) ex_state =
       ((s', True, None), b', cs)
     \<and> s' = ex_cached\<lparr>NoCache := NoCache ex_state, Commits := []\<rparr>
     \<and> NoCache s' = NoCache ex_state \<and> Commits s' = []
     \<and> NoCache ex_cached \<noteq> NoCache ex_state \<and> Commits ex_cached \<noteq> []
     \<and> ProducedSize b' = 15 \<and> Build.VirtualSize b' = 100"
proof -
  have neq: "NoCache ex_cached \<noteq> NoCache ex_state \<and> Commits ex_cached \<noteq> []"
    by (simp add: ex_cached_def ex_state_def)
  have size: "ProducedSize (ex_build (Some mem_Cache) False [(''base'', ex_cached)]) = 5"
    by (simp add: ex_build_def)
  show ?thesis
    using probeCache_hit
      [of "ex_build (Some mem_Cache) False [(''base'', ex_cached)]" mem_Cache ex_state
          ex_cached "[(''base'', ex_cached)]" "\<lparr>Size = 10, VirtualSize = 100\<rparr>"
          "[(''base'', ex_cached)]"]
      neq size
    by (simp add: ex_build_simps ex_state_simps mem_Cache_simps ex_Client_simps)
qed

text \<open>
  C5, as the claim states it, fails: in reload mode the store finds an entry and its
  \<open>Del\<close> fails, and \<open>probeCache\<close> returns no error.
\<close>

theorem probeCache_Del_error_counterexample:
  "fst (Del readonly_Cache ex_cached [(''base'', ex_cached)]) = Some (Failure ''read-only file system'')
   \<and> probeCache (ex_build (Some readonly_Cache) True [(''base'', ex_cached)]) ex_state =
       ((bust ex_state, False, None), ex_build (Some readonly_Cache) True [(''base'', ex_cached)],
        [CacheGet ex_state, LogInfo ''| Reload cache'', CacheDel ex_cached])"
  by (simp add: probeCache_def ex_build_simps ex_state_simps mem_Cache_simps)

text \<open>
  C5, amended. An error of the store's \<open>Get\<close> comes out of \<open>probeCache\<close> as its
  error, with the probed state and no hit. An error of the store's \<open>Del\<close>, in the
  reload-cache branch and in the stale-image branch, does not: the deferred call's result
  is dropped and \<open>probeCache\<close> returns the state with \<open>CacheBusted\<close> set, no hit and
  no error.
\<close>

theorem probeCache_cache_errors:
  "(\<forall>ca r e w1. cache b = Some ca \<and> \<not> CacheBusted (NoCache s)
        \<and> Get ca s (world b) = ((r, Some e), w1) \<longrightarrow>
      fst (probeCache b s) = (s, False, Some e))
   \<and> (\<forall>ca s2 w1 e w2. cache b = Some ca \<and> \<not> CacheBusted (NoCache s)
        \<and> Get ca s (world b) = ((Some s2, None), w1) \<and> ReloadCache (cfg b)
        \<and> Del ca s2 w1 = (Some e, w2) \<longrightarrow>
      fst (probeCache b s) = (bust s, False, None))
   \<and> (\<forall>ca s2 w1 w2 e w3. cache b = Some ca \<and> \<not> CacheBusted (NoCache s)
        \<and> Get ca s (world b) = ((Some s2, None), w1) \<and> \<not> ReloadCache (cfg b)
        \<and> InspectImage (client b) (ImageID s2) w1 = ((None, None), w2)
        \<and> Del ca s2 w2 = (Some e, w3) \<longrightarrow>
      fst (probeCache b s) = (bust s, False, None))"
  by (auto simp: probeCache_def)

theorem probeCache_cache_errors_witness:
  "fst (probeCache (ex_build (Some unreadable_Cache) False []) ex_state) =
     (ex_state, False, Some (Failure ''permission denied''))
   \<and> fst (probeCache (ex_build (Some readonly_Cache) True [(''base'', ex_cached)]) ex_state) =
       (bust ex_state, False, None)
   \<and> fst (probeCache (ex_build (Some readonly_Cache) False [(''base'', ex_stale)]) ex_state) =
       (bust ex_state, False, None)"
proof -
  have get:
    "cache (ex_build (Some unreadable_Cache) False []) = Some unreadable_Cache
     \<and> \<not> CacheBusted (NoCache ex_state)
     \<and> Get unreadable_Cache ex_state (world (ex_build (Some unreadable_Cache) False [])) =
         ((None, Some (Failure ''permission denied'')), [])"
    by (simp add: ex_build_simps ex_state_simps mem_Cache_simps)
  have reload:
    "cache (ex_build (Some readonly_Cache) True [(''base'', ex_cached)]) = Some readonly_Cache
     \<and> \<not> CacheBusted (NoCache ex_state)
     \<and> Get readonly_Cache ex_state
          (world (ex_build (Some readonly_Cache) True [(''base'', ex_cached)])) =
         ((Some ex_cached, None), [(''base'', ex_cached)])
     \<and> ReloadCache (cfg (ex_build (Some readonly_Cache) True [(''base'', ex_cached)]))
     \<and> Del readonly_Cache ex_cached [(''base'', ex_cached)] =
         (Some (Failure ''read-only file system''), [(''base'', ex_cached)])"
    by (simp add: ex_build_simps ex_state_simps mem_Cache_simps)
  have stale:
    "cache (ex_build (Some readonly_Cache) False [(''base'', ex_stale)]) = Some readonly_Cache
     \<and> \<not> CacheBusted (NoCache ex_state)
     \<and> Get readonly_Cache ex_state
          (world (ex_build (Some readonly_Cache) False [(''base'', ex_stale)])) =
         ((Some ex_stale, None), [(''base'', ex_stale)])
     \<and> \<not> ReloadCache (cfg (ex_build (Some readonly_Cache) False [(''base'', ex_stale)]))
     \<and> InspectImage (client (ex_build (Some readonly_Cache) False [(''base'', ex_stale)]))
          (ImageID ex_stale) [(''base'', ex_stale)] = ((None, None), [(''base'', ex_stale)])
     \<and> Del readonly_Cache ex_stale [(''base'', ex_stale)] =
         (Some (Failure ''read-only file system''), [(''base'', ex_stale)])"
    by (simp add: ex_build_simps ex_state_simps mem_Cache_simps ex_Client_simps)
  from probeCache_cache_errors [of "ex_build (Some unreadable_Cache) False []" ex_state] get
  have 1: "fst (probeCache (ex_build (Some unreadable_Cache) False []) ex_state) =
     (ex_state, False, Some (Failure ''permission denied''))"
    by blast
  from probeCache_cache_errors
    [of "ex_build (Some readonly_Cache) True [(''base'', ex_cached)]" ex_state] reload
  have 2: "fst (probeCache (ex_build (Some readonly_Cache) True [(''base'', ex_cached)]) ex_state) =
       (bust ex_state, False, None)"
    by blast
  from probeCache_cache_errors
    [of "ex_build (Some readonly_Cache) False [(''base'', ex_stale)]" ex_state] stale
  have 3: "fst (probeCache (ex_build (Some readonly_Cache) False [(''base'', ex_stale)]) ex_state) =
       (bust ex_state, False, None)"
    by blast
  from 1 2 3 show ?thesis by blast
qed

text \<open>
  C6, as the claim states it, fails: the run is configured with reload-cache, the lookup
  finds an entry, and the store's \<open>Del\<close> fails. \<open>probeCache\<close> drops that error and
  returns no hit and no error, and a lookup on the store afterwards still returns the old
  entry.
\<close>

theorem probeCache_reload_counterexample:
  "fst (probeCache (ex_build (Some readonly_Cache) True [(''base'', ex_cached)]) ex_state) =
     (bust ex_state, False, None)
   \<and> fst (fst (Get readonly_Cache ex_state
        (world (fst (snd (probeCache (ex_build (Some readonly_Cache) True
           [(''base'', ex_cached)]) ex_state)))))) = Some ex_cached"
  by (simp add: probeCache_def ex_build_simps ex_state_simps mem_Cache_simps)

text \<open>
  C6, amended. When the lookup finds an entry and the run is configured with
  reload-cache, \<open>probeCache\<close> calls the store's \<open>Del\<close> on the found entry (its only
  calls on the store are the lookup and this deletion, and the store afterwards is the one
  \<open>Del\<close> left), and returns the probed state with \<open>CacheBusted\<close> set, no hit and no
  error, whatever \<open>Del\<close> returned. When that \<open>Del\<close> returned without error, on a
  store that honours deletions, no lookup on the store afterwards returns the old entry.
\<close>

theorem probeCache_reload:
  assumes "cache b = Some ca"
    and "\<not> CacheBusted (NoCache s)"
    and "Get ca s (world b) = ((Some s2, None), w1)"
    and "ReloadCache (cfg b)"
  shows "probeCache b s =
           ((bust s, False, None), b\<lparr>world := snd (Del ca s2 w1)\<rparr>,
            [CacheGet s, LogInfo ''| Reload cache'', CacheDel s2])
       \<and> CacheBusted (NoCache (bust s))
       \<and> (Del_removes ca \<and> fst (Del ca s2 w1) = None \<longrightarrow>
            (\<forall>q. fst (fst (Get ca q (world (fst (snd (probeCache b s)))))) \<noteq> Some s2))"
  using assms by (auto simp: probeCache_def bust_def Del_removes_def split: prod.splits)

theorem probeCache_reload_witness:
  "probeCache (ex_build (Some mem_Cache) True [(''base'', ex_cached)]) ex_state =
     ((bust ex_state, False, None), ex_build (Some mem_Cache) True [],
      [CacheGet ex_state, LogInfo ''| Reload cache'', CacheDel ex_cached])
   \<and> fst (fst (Get mem_Cache ex_state [(''base'', ex_cached)])) = Some ex_cached
   \<and> (\<forall>q. fst (fst (Get mem_Cache q
        (world (fst (snd (probeCache (ex_build (Some mem_Cache) True [(''base'', ex_cached)])
           ex_state)))))) \<noteq> Some ex_cached)"
proof -
  have hit: "Get mem_Cache ex_state (world (ex_build (Some mem_Cache) True [(''base'', ex_cached)])) =
      ((Some ex_cached, None), [(''base'', ex_cached)])"
    by (simp add: ex_build_simps ex_state_simps mem_Cache_simps)
  have del: "Del mem_Cache ex_cached [(''base'', ex_cached)] = (None, [])"
    by (simp add: mem_Cache_simps)
  show ?thesis
    using probeCache_reload
      [of "ex_build (Some mem_Cache) True [(''base'', ex_cached)]" mem_Cache ex_state
          ex_cached "[(''base'', ex_cached)]"]
      hit del Del_removes_mem_Cache
    by (simp add: ex_build_simps ex_state_simps mem_Cache_simps)
qed

section \<open>Plan executor: properties\<close>

lemma visited_append: "visited (xs @ ys) = visited xs @ visited ys"
  by (induction xs rule: visited.induct) simp_all

lemma executed_append: "executed (xs @ ys) = executed xs @ executed ys"
  by (induction xs rule: executed.induct) simp_all

lemma visited_replaceEnv: "replaceEnv c b = (c', evs) \<Longrightarrow> visited evs = []"
  by (auto simp: replaceEnv_def split: option.splits)

lemma executed_replaceEnv: "replaceEnv c b = (c', evs) \<Longrightarrow> executed evs = []"
  by (auto simp: replaceEnv_def split: option.splits)

lemma visited_Run_step: "Run_step ps k c b = (out, b', evs) \<Longrightarrow> visited evs = [c]"
  by (auto simp: Run_step_def Let_def visited_append visited_replaceEnv
      split: prod.splits option.splits if_splits sum.splits)

lemma executed_Run_step:
  "Run_step ps k c b = (out, b', evs) \<Longrightarrow> executed evs = [] \<or> executed evs = [c]"
  by (auto simp: Run_step_def Let_def executed_append executed_replaceEnv
      split: prod.splits option.splits if_splits sum.splits)

lemma steps_plain_ConsD:
  assumes "steps_plain ps k (c # cs) b = Some (b', evs)"
  obtains b1 e1 e2 where "Run_step ps k c b = (Done, b1, e1)"
    and "steps_plain ps (k + 1) cs b1 = Some (b', e2)" and "evs = e1 @ e2"
  using assms by (auto split: prod.splits outcome.splits option.splits)

lemma visited_steps_plain:
  "steps_plain ps k cs b = Some (b', evs) \<Longrightarrow> visited evs = cs"
proof (induction cs arbitrary: k b evs)
  case Nil
  then show ?case by simp
next
  case (Cons c cs)
  from Cons.prems obtain b1 e1 e2 where
    st: "Run_step ps k c b = (Done, b1, e1)" and
    more: "steps_plain ps (k + 1) cs b1 = Some (b', e2)" and
    ev: "evs = e1 @ e2"
    by (rule steps_plain_ConsD)
  show ?case
    by (simp add: ev visited_append visited_Run_step [OF st] Cons.IH [OF more])
qed

text \<open>
  Steps that neither abort nor inject take the loop from index \<open>k\<close> to the index after
  them, with the plan as it was.
\<close>

lemma Run_loop_steps_plain:
  "steps_plain ps k cs b = Some (b', evs) \<Longrightarrow> drop k plan = cs @ rest \<Longrightarrow>
   Run_loop ps k plan b tr = Run_loop ps (k + length cs) plan b' (tr @ evs)"
proof (induction cs arbitrary: k b tr evs)
  case Nil
  then show ?case by simp
next
  case (Cons c cs)
  from Cons.prems(1) obtain b1 e1 e2 where
    st: "Run_step ps k c b = (Done, b1, e1)" and
    more: "steps_plain ps (k + 1) cs b1 = Some (b', e2)" and
    ev: "evs = e1 @ e2"
    by (rule steps_plain_ConsD)
  from Cons.prems(2) have lt: "k < length plan"
    by (cases "k < length plan") simp_all
  from Cons.prems(2) have nth: "plan ! k = c"
    by (simp add: nth_via_drop)
  have "drop (k + 1) plan = tl (drop k plan)"
    by (simp add: drop_Suc tl_drop)
  with Cons.prems(2) have dr: "drop (k + 1) plan = cs @ rest"
    by simp
  have "Run_loop ps k plan b tr = Run_loop ps (k + 1) plan b1 (tr @ e1)"
    by (subst Run_loop.simps) (simp add: lt nth st)
  also have "\<dots> = Run_loop ps (k + 1 + length cs) plan b' ((tr @ e1) @ e2)"
    by (rule Cons.IH [OF more dr])
  finally show ?case
    by (simp add: ev)
qed

lemma Run_loop_end: "length plan \<le> k \<Longrightarrow> Run_loop ps k plan b tr = Some (None, b, tr)"
  by (subst Run_loop.simps) simp

text \<open>One iteration of the loop on a step that is skipped, that runs, that injects.\<close>

lemma Run_step_skipped:
  "ShouldRun c b = ((False, None), b1) \<Longrightarrow>
   Run_step ps k c b = (Done, b1, [LogDebugStep (k + 1) c, CallShouldRun c])"
  by (simp add: Run_step_def)

lemma Run_step_ran:
  assumes "ShouldRun c b = ((True, None), b1)"
    and "Execute (case ReplaceEnv c of None \<Rightarrow> c | Some f \<Rightarrow> f (Env (Config (state b1)))) b1 =
           ((s', None), b2)"
    and "InjectCommands s' = []"
  shows "\<exists>evs. Run_step ps k c b = (Done, b2\<lparr>state := s'\<rparr>, evs)
      \<and> visited evs = [c] \<and> executed evs = [c]"
  using assms
  by (cases "ReplaceEnv c") (simp_all add: Run_step_def replaceEnv_def Let_def)

lemma Run_step_injected:
  assumes "ShouldRun c b = ((True, None), b1)"
    and "Execute (case ReplaceEnv c of None \<Rightarrow> c | Some f \<Rightarrow> f (Env (Config (state b1)))) b1 =
           ((s', None), b2)"
    and "InjectCommands s' \<noteq> []"
    and "parseOnbuildCommands ps (InjectCommands s') = Inr commands"
    and "NewPlan ps commands False = Inr sub"
  shows "\<exists>evs. Run_step ps k c b = (Inject sub, b2\<lparr>state := s'\<lparr>InjectCommands := []\<rparr>\<rparr>, evs)
      \<and> visited evs = [c] \<and> executed evs = [c]"
  using assms
  by (cases "ReplaceEnv c") (simp_all add: Run_step_def replaceEnv_def Let_def)

text \<open>
  On steps that the spec's executor takes without abort or injection, the loop body does
  the same: it ends with the same build object, has called \<open>ShouldRun\<close> on every step
  and \<open>Execute\<close> on exactly the steps the spec's executor executed.
\<close>

lemma spec_steps_plain:
  "spec_steps cs b = Some (b', exs) \<Longrightarrow>
   \<exists>evs. steps_plain ps k cs b = Some (b', evs) \<and> visited evs = cs \<and> executed evs = exs"
proof (induction cs arbitrary: k b exs)
  case Nil
  then show ?case by simp
next
  case (Cons c cs)
  obtain doRun err b1 where sr: "ShouldRun c b = ((doRun, err), b1)"
    by (metis prod.exhaust)
  from Cons.prems sr have noerr: "err = None"
    by (auto split: if_splits)
  show ?case
  proof (cases doRun)
    case False
    with Cons.prems sr noerr have rest: "spec_steps cs b1 = Some (b', exs)"
      by simp
    from Cons.IH [OF rest, of "k + 1"] obtain e2 where
      e2: "steps_plain ps (k + 1) cs b1 = Some (b', e2)" "visited e2 = cs" "executed e2 = exs"
      by blast
    from sr noerr False
    have st: "Run_step ps k c b = (Done, b1, [LogDebugStep (k + 1) c, CallShouldRun c])"
      by (simp add: Run_step_skipped)
    show ?thesis
      using st e2 by simp
  next
    case True
    obtain s' err' b2 where ex:
      "Execute (case ReplaceEnv c of None \<Rightarrow> c | Some f \<Rightarrow> f (Env (Config (state b1)))) b1 =
         ((s', err'), b2)"
      by (metis prod.exhaust)
    from Cons.prems sr noerr True ex have ok: "err' = None" "InjectCommands s' = []"
      by (auto split: if_splits)
    from Cons.prems sr noerr True ex ok obtain exs' where
      rest: "spec_steps cs (b2\<lparr>state := s'\<rparr>) = Some (b', exs')" and exs: "exs = c # exs'"
      by (auto split: option.splits)
    from Cons.IH [OF rest, of "k + 1"] obtain e2 where
      e2: "steps_plain ps (k + 1) cs (b2\<lparr>state := s'\<rparr>) = Some (b', e2)"
        "visited e2 = cs" "executed e2 = exs'"
      by blast
    from Run_step_ran [of c b b1 s' b2 ps k] sr noerr True ex ok obtain e1 where
      e1: "Run_step ps k c b = (Done, b2\<lparr>state := s'\<rparr>, e1)" "visited e1 = [c]"
        "executed e1 = [c]"
      by auto
    show ?thesis
      using e1 e2 exs by (simp add: visited_append executed_append)
  qed
qed

text \<open>
  C1, as the claim states it, fails. In the plan \<open>[cmd_run, cmd_from, cmd_skip]\<close> step 1
  injects one command, which the plan source turns into the sub-plan \<open>[cmd_run]\<close>.
  \<open>Run\<close> returns without error, and the steps it has executed are the steps 0 and 1
  and the injected step: the original step 2, whose \<open>ShouldRun\<close> says false, is never
  executed.
\<close>

theorem Run_splice_counterexample:
  "Run ex_source ex_plan (ex_build None False []) = Some (None, ex_build None False [], ex_trace)
   \<and> take (1 + 1) ex_plan @ [cmd_run] @ drop (1 + 1) ex_plan =
       [cmd_run, cmd_from, cmd_run, cmd_skip]
   \<and> executed ex_trace = [cmd_run, cmd_from, cmd_run]
   \<and> executed ex_trace \<noteq> take (1 + 1) ex_plan @ [cmd_run] @ drop (1 + 1) ex_plan"
  by (simp add: Run_def Run_loop.simps Run_step_def replaceEnv_def Let_def ex_plan_def
      ex_trace_def ex_source_def ex_build_def ex_state_def
      cmd_run_def cmd_from_def cmd_skip_def)

text \<open>
  C1, amended. Take a plan of length \<open>N\<close> and a step \<open>k < N\<close> such that the steps
  \<open>0..k-1\<close> go through without abort or injection, step \<open>k\<close> is executed and leaves a
  state with a non-empty injection queue that the plan source turns into the sub-plan
  \<open>sub\<close>, and the steps of \<open>sub\<close>, started with the queue emptied, and then the steps
  \<open>k+1..N-1\<close> go through without abort or injection. Then \<open>Run\<close> returns without
  error, with the build object these steps leave. It has called \<open>ShouldRun\<close>, in this
  order and exactly once each, on the steps \<open>0..k\<close>, on the steps of the sub-plan and
  on the steps \<open>k+1..N-1\<close>; it has executed, in the same order and exactly once each,
  exactly those of them whose \<open>ShouldRun\<close> said true (a step whose \<open>ShouldRun\<close> says
  false is skipped, not executed); and the loop goes on after step \<open>k\<close> with an empty
  injection queue on the state.
\<close>

theorem Run_splice:
  assumes k: "k < length plan"
    and pre: "spec_steps (take k plan) b = Some (b1, ex1)"
    and should: "ShouldRun (plan ! k) b1 = ((True, None), b1a)"
    and exec: "Execute (case ReplaceEnv (plan ! k) of
                          None \<Rightarrow> plan ! k
                        | Some f \<Rightarrow> f (Env (Config (state b1a)))) b1a = ((s', None), b1b)"
    and queue: "InjectCommands s' \<noteq> []"
    and parse: "parseOnbuildCommands ps (InjectCommands s') = Inr commands"
    and newplan: "NewPlan ps commands False = Inr sub"
    and mid: "spec_steps sub (b1b\<lparr>state := s'\<lparr>InjectCommands := []\<rparr>\<rparr>) = Some (b3, ex3)"
    and post: "spec_steps (drop (k + 1) plan) b3 = Some (b4, ex4)"
  shows "(\<exists>tr. Run ps plan b = Some (None, b4, tr)
          \<and> visited tr = take (k + 1) plan @ sub @ drop (k + 1) plan
          \<and> executed tr = ex1 @ [plan ! k] @ ex3 @ ex4)
     \<and> (\<exists>b2 evs. Run_step ps k (plan ! k) b1 = (Inject sub, b2, evs)
          \<and> InjectCommands (state b2) = [] \<and> spec_steps sub b2 = Some (b3, ex3))"
proof -
  let ?plan' = "take (k + 1) plan @ (sub @ drop (k + 1) plan)"
  let ?b2 = "b1b\<lparr>state := s'\<lparr>InjectCommands := []\<rparr>\<rparr>"
  from spec_steps_plain [OF pre, of ps 0] obtain tr1 where
    p1: "steps_plain ps 0 (take k plan) b = Some (b1, tr1)"
      and v1: "visited tr1 = take k plan" and x1: "executed tr1 = ex1"
    by blast
  from Run_step_injected [OF should exec queue parse newplan, of k] obtain tr2 where
    inj: "Run_step ps k (plan ! k) b1 = (Inject sub, ?b2, tr2)"
      and v2: "visited tr2 = [plan ! k]" and x2: "executed tr2 = [plan ! k]"
    by blast
  from spec_steps_plain [OF mid, of ps "k + 1"] obtain tr3 where
    p3: "steps_plain ps (k + 1) sub ?b2 = Some (b3, tr3)"
      and v3: "visited tr3 = sub" and x3: "executed tr3 = ex3"
    by blast
  from spec_steps_plain [OF post, of ps "k + 1 + length sub"] obtain tr4 where
    p4: "steps_plain ps (k + 1 + length sub) (drop (k + 1) plan) b3 = Some (b4, tr4)"
      and v4: "visited tr4 = drop (k + 1) plan" and x4: "executed tr4 = ex4"
    by blast
  have d0: "drop 0 plan = take k plan @ drop k plan"
    by simp
  have lk: "length (take k plan) = k"
    using k by simp
  have "Run ps plan b = Run_loop ps k plan b1 tr1"
    unfolding Run_def using Run_loop_steps_plain [OF p1 d0, of "[]"] lk by simp
  also have "\<dots> = Run_loop ps (k + 1) ?plan' ?b2 (tr1 @ tr2)"
    by (subst Run_loop.simps) (simp add: k inj)
  also have "\<dots> = Run_loop ps (k + 1 + length sub) ?plan' b3 ((tr1 @ tr2) @ tr3)"
  proof (rule Run_loop_steps_plain [OF p3])
    show "drop (k + 1) ?plan' = sub @ drop (k + 1) plan"
      using k by simp
  qed
  also have "\<dots> = Run_loop ps (k + 1 + length sub + length (drop (k + 1) plan)) ?plan' b4
      (((tr1 @ tr2) @ tr3) @ tr4)"
  proof (rule Run_loop_steps_plain [OF p4])
    show "drop (k + 1 + length sub) ?plan' = drop (k + 1) plan @ []"
      using k by simp
  qed
  also have "\<dots> = Some (None, b4, ((tr1 @ tr2) @ tr3) @ tr4)"
    by (rule Run_loop_end) (use k in simp)
  finally have run: "Run ps plan b = Some (None, b4, tr1 @ tr2 @ tr3 @ tr4)"
    by simp
  have v: "visited (tr1 @ tr2 @ tr3 @ tr4) = take (k + 1) plan @ sub @ drop (k + 1) plan"
    using k by (simp add: visited_append v1 v2 v3 v4 take_Suc_conv_app_nth)
  have x: "executed (tr1 @ tr2 @ tr3 @ tr4) = ex1 @ [plan ! k] @ ex3 @ ex4"
    by (simp add: executed_append x1 x2 x3 x4)
  have first: "\<exists>tr. Run ps plan b = Some (None, b4, tr)
      \<and> visited tr = take (k + 1) plan @ sub @ drop (k + 1) plan
      \<and> executed tr = ex1 @ [plan ! k] @ ex3 @ ex4"
    using run v x by blast
  have second: "\<exists>b2 evs. Run_step ps k (plan ! k) b1 = (Inject sub, b2, evs)
      \<and> InjectCommands (state b2) = [] \<and> spec_steps sub b2 = Some (b3, ex3)"
    using inj mid by (intro exI [of _ ?b2] exI [of _ tr2]) simp
  from first second show ?thesis
    by blast
qed

lemma cmd_simps:
  "ShouldRun cmd_run b = ((True, None), b)"
  "Execute cmd_run b = ((state b, None), b)"
  "ReplaceEnv cmd_run = None"
  "ShouldRun cmd_skip b = ((False, None), b)"
  "ShouldRun cmd_from b = ((True, None), b)"
  "Execute cmd_from b = (((state b)\<lparr>InjectCommands := [''RUN make test'']\<rparr>, None), b)"
  "ReplaceEnv cmd_from = None"
  "ShouldRun cmd_bad_check b = ((False, Some (Failure ''bad arguments'')), b)"
  "ShouldRun cmd_bad_exec b = ((True, None), b)"
  by (simp_all add: cmd_run_def cmd_skip_def cmd_from_def cmd_bad_check_def cmd_bad_exec_def)

lemma ex_source_simps:
  "parseOnbuildCommands ex_source cmds = Inr cmds"
  "NewPlan ex_source commands final = Inr (map (\<lambda>x. cmd_run) commands)"
  by (simp_all add: ex_source_def)

theorem Run_splice_witness:
  "\<exists>tr. Run ex_source ex_plan (ex_build None False []) = Some (None, ex_build None False [], tr)
     \<and> visited tr = [cmd_run, cmd_from, cmd_run, cmd_skip]
     \<and> executed tr = [cmd_run, cmd_from, cmd_run]"
proof -
  let ?b = "ex_build None False []"
  let ?s = "ex_state\<lparr>InjectCommands := [''RUN make test'']\<rparr>"
  have same: "?b\<lparr>state := ?s\<lparr>InjectCommands := []\<rparr>\<rparr> = ?b"
    by (simp add: ex_build_def ex_state_def)
  have k: "1 < length ex_plan"
    by (simp add: ex_plan_def)
  have pre: "spec_steps (take 1 ex_plan) ?b = Some (?b, [cmd_run])"
    by (simp add: ex_plan_def cmd_simps) (simp add: ex_build_def ex_state_def)
  have should: "ShouldRun (ex_plan ! 1) ?b = ((True, None), ?b)"
    by (simp add: ex_plan_def cmd_simps)
  have exec: "Execute (case ReplaceEnv (ex_plan ! 1) of
                         None \<Rightarrow> ex_plan ! 1
                       | Some f \<Rightarrow> f (Env (Config (state ?b)))) ?b = ((?s, None), ?b)"
    by (simp add: ex_plan_def cmd_simps ex_build_simps)
  have queue: "InjectCommands ?s \<noteq> []"
    by simp
  have parse: "parseOnbuildCommands ex_source (InjectCommands ?s) = Inr [''RUN make test'']"
    by (simp add: ex_source_simps)
  have newplan: "NewPlan ex_source [''RUN make test''] False = Inr [cmd_run]"
    by (simp add: ex_source_simps)
  have mid: "spec_steps [cmd_run] (?b\<lparr>state := ?s\<lparr>InjectCommands := []\<rparr>\<rparr>) = Some (?b, [cmd_run])"
    unfolding same by (simp add: cmd_simps) (simp add: ex_build_def ex_state_def)
  have post: "spec_steps (drop (1 + 1) ex_plan) ?b = Some (?b, [])"
    by (simp add: ex_plan_def cmd_simps)
  from Run_splice [OF k pre should exec queue parse newplan mid post]
  have "\<exists>tr. Run ex_source ex_plan ?b = Some (None, ?b, tr)
      \<and> visited tr = take (1 + 1) ex_plan @ [cmd_run] @ drop (1 + 1) ex_plan
      \<and> executed tr = [cmd_run] @ [ex_plan ! 1] @ [cmd_run] @ []"
    by blast
  then show ?thesis
    by (simp add: ex_plan_def)
qed

text \<open>
  C4. Executor abort-and-skip semantics. Whatever the loop of \<open>Run\<close> has done before
  it stands at a step \<open>k\<close> of its plan: if \<open>ShouldRun\<close> of the step returns an error,
  the run returns that error, having added to its events only the debug line and the
  \<open>ShouldRun\<close> call of that step (no \<open>ReplaceEnv\<close>, no \<open>Execute\<close>, nothing of a
  later step); if \<open>ShouldRun\<close> returns false, the loop goes on at step \<open>k + 1\<close> with
  the same plan, having added only those two events; if \<open>Execute\<close> of the step returns
  an error, the run returns that error, and its last event is that \<open>Execute\<close> call.
\<close>

theorem Run_abort_skip:
  "(\<forall>d e b1. k < length plan \<and> ShouldRun (plan ! k) b = ((d, Some e), b1) \<longrightarrow>
      Run_loop ps k plan b tr =
        Some (Some e, b1, tr @ [LogDebugStep (k + 1) (plan ! k), CallShouldRun (plan ! k)]))
   \<and> (\<forall>b1. k < length plan \<and> ShouldRun (plan ! k) b = ((False, None), b1) \<longrightarrow>
      Run_loop ps k plan b tr =
        Run_loop ps (k + 1) plan b1
          (tr @ [LogDebugStep (k + 1) (plan ! k), CallShouldRun (plan ! k)]))
   \<and> (\<forall>b1 c' evs s' e b2. k < length plan \<and> ShouldRun (plan ! k) b = ((True, None), b1)
        \<and> replaceEnv (plan ! k) b1 = (c', evs) \<and> Execute c' b1 = ((s', Some e), b2) \<longrightarrow>
      Run_loop ps k plan b tr =
        Some (Some e, b2\<lparr>state := s'\<rparr>,
              tr @ [LogDebugStep (k + 1) (plan ! k), CallShouldRun (plan ! k)] @ evs
                 @ [LogInfoCommand (plan ! k), CallExecute (plan ! k)]))"
proof (intro conjI allI impI)
  fix d e b1
  assume "k < length plan \<and> ShouldRun (plan ! k) b = ((d, Some e), b1)"
  then show "Run_loop ps k plan b tr =
      Some (Some e, b1, tr @ [LogDebugStep (k + 1) (plan ! k), CallShouldRun (plan ! k)])"
    by (subst Run_loop.simps) (simp add: Run_step_def)
next
  fix b1
  assume "k < length plan \<and> ShouldRun (plan ! k) b = ((False, None), b1)"
  then show "Run_loop ps k plan b tr =
      Run_loop ps (k + 1) plan b1
        (tr @ [LogDebugStep (k + 1) (plan ! k), CallShouldRun (plan ! k)])"
    by (subst Run_loop.simps) (simp add: Run_step_def)
next
  fix b1 c' evs s' e b2
  assume "k < length plan \<and> ShouldRun (plan ! k) b = ((True, None), b1)
      \<and> replaceEnv (plan ! k) b1 = (c', evs) \<and> Execute c' b1 = ((s', Some e), b2)"
  then show "Run_loop ps k plan b tr =
      Some (Some e, b2\<lparr>state := s'\<rparr>,
            tr @ [LogDebugStep (k + 1) (plan ! k), CallShouldRun (plan ! k)] @ evs
               @ [LogInfoCommand (plan ! k), CallExecute (plan ! k)])"
    by (subst Run_loop.simps) (simp add: Run_step_def)
qed

theorem Run_abort_skip_witness:
  "Run ex_source [cmd_bad_check, cmd_run] (ex_build None False []) =
     Some (Some (Failure ''bad arguments''), ex_build None False [],
           [LogDebugStep 1 cmd_bad_check, CallShouldRun cmd_bad_check])
   \<and> Run ex_source [cmd_skip] (ex_build None False []) =
       Some (None, ex_build None False [], [LogDebugStep 1 cmd_skip, CallShouldRun cmd_skip])
   \<and> Run ex_source [cmd_bad_exec, cmd_run] (ex_build None False []) =
       Some (Some (Failure ''exit 1''), ex_build None False [],
             [LogDebugStep 1 cmd_bad_exec, CallShouldRun cmd_bad_exec,
              CallReplaceEnv cmd_bad_exec [''A=1''],
              LogInfoCommand cmd_bad_exec, CallExecute cmd_bad_exec])"
proof -
  let ?b = "ex_build None False []"
  have check: "0 < length [cmd_bad_check, cmd_run]
      \<and> ShouldRun ([cmd_bad_check, cmd_run] ! 0) ?b = ((False, Some (Failure ''bad arguments'')), ?b)"
    by (simp add: cmd_simps)
  from Run_abort_skip [of 0 "[cmd_bad_check, cmd_run]" ?b ex_source "[]"] check
  have "Run_loop ex_source 0 [cmd_bad_check, cmd_run] ?b [] =
      Some (Some (Failure ''bad arguments''), ?b,
        [] @ [LogDebugStep (0 + 1) ([cmd_bad_check, cmd_run] ! 0),
              CallShouldRun ([cmd_bad_check, cmd_run] ! 0)])"
    by blast
  then have 1: "Run ex_source [cmd_bad_check, cmd_run] ?b =
     Some (Some (Failure ''bad arguments''), ?b,
           [LogDebugStep 1 cmd_bad_check, CallShouldRun cmd_bad_check])"
    by (simp add: Run_def)
  have skip: "0 < length [cmd_skip] \<and> ShouldRun ([cmd_skip] ! 0) ?b = ((False, None), ?b)"
    by (simp add: cmd_simps)
  from Run_abort_skip [of 0 "[cmd_skip]" ?b ex_source "[]"] skip
  have "Run_loop ex_source 0 [cmd_skip] ?b [] =
      Run_loop ex_source (0 + 1) [cmd_skip] ?b
        ([] @ [LogDebugStep (0 + 1) ([cmd_skip] ! 0), CallShouldRun ([cmd_skip] ! 0)])"
    by blast
  then have 2: "Run ex_source [cmd_skip] ?b =
      Some (None, ?b, [LogDebugStep 1 cmd_skip, CallShouldRun cmd_skip])"
    by (simp add: Run_def Run_loop_end)
  have exec: "0 < length [cmd_bad_exec, cmd_run]
      \<and> ShouldRun ([cmd_bad_exec, cmd_run] ! 0) ?b = ((True, None), ?b)
      \<and> replaceEnv ([cmd_bad_exec, cmd_run] ! 0) ?b =
          (Command (\<lambda>b. ((True, None), b)) (\<lambda>b. ((state b, Some (Failure ''exit 1'')), b)) None,
           [CallReplaceEnv cmd_bad_exec [''A=1'']])
      \<and> Execute (Command (\<lambda>b. ((True, None), b))
            (\<lambda>b. ((state b, Some (Failure ''exit 1'')), b)) None) ?b =
          ((ex_state, Some (Failure ''exit 1'')), ?b)"
    by (simp add: cmd_simps replaceEnv_def ex_build_simps ex_state_simps cmd_bad_exec_def)
  from Run_abort_skip [of 0 "[cmd_bad_exec, cmd_run]" ?b ex_source "[]"] exec
  have "Run_loop ex_source 0 [cmd_bad_exec, cmd_run] ?b [] =
      Some (Some (Failure ''exit 1''), ?b\<lparr>state := ex_state\<rparr>,
        [] @ [LogDebugStep (0 + 1) ([cmd_bad_exec, cmd_run] ! 0),
              CallShouldRun ([cmd_bad_exec, cmd_run] ! 0)]
           @ [CallReplaceEnv cmd_bad_exec [''A=1'']]
           @ [LogInfoCommand ([cmd_bad_exec, cmd_run] ! 0),
              CallExecute ([cmd_bad_exec, cmd_run] ! 0)])"
    by blast
  then have 3: "Run ex_source [cmd_bad_exec, cmd_run] ?b =
       Some (Some (Failure ''exit 1''), ?b,
             [LogDebugStep 1 cmd_bad_exec, CallShouldRun cmd_bad_exec,
              CallReplaceEnv cmd_bad_exec [''A=1''],
              LogInfoCommand cmd_bad_exec, CallExecute cmd_bad_exec])"
    by (simp add: Run_def ex_build_def)
  from 1 2 3 show ?thesis
    by blast
qed

section \<open>Engine client: properties\<close>








section \<open>Interactive run coordinator: properties\<close>

text \<open>
  On the paths on which \<open>RunContainer\<close> returns after it has put the terminal into raw
  mode, restoring the terminal is the last thing it does.
\<close>

lemma RunContainer_restores_on_return:
  assumes "isTerminalIn env" and "setRawTerminal env = None"
    and "DockerClient_RunContainer env containerID True = (Returns e, evs)"
  shows "SetRawTerminal \<in> set evs \<and> last evs = RestoreTerminal"
  using assms
  by (auto simp: DockerClient_RunContainer_def prefixed_def deferred_def
      split: prod.splits run_result.splits)

text \<open>
  C8. Terminal restoration fails on the interrupt path: an interactive run on a
  terminal puts the terminal into raw mode, the container starts, the interrupt arrives;
  the container is removed and the process exits with status 2 through \<^verbatim>\<open>os.Exit\<close>,
  which runs no deferred call, so that \<open>RestoreTerminal\<close> is not among the events.
\<close>

theorem RunContainer_sigint_leaves_raw_terminal:
  "DockerClient_RunContainer env_interrupted ''0123456789abcdef'' True =
     (Exits 2,
      [LogInfoAttachStdin ''0123456789ab'', LogDebugAttachOptions, SetRawTerminal,
       GoAttachToContainer, ReceiveSuccess, StartContainer ''0123456789abcdef'',
       MonitorTtySize ''0123456789abcdef'', SignalNotify, GoWaitContainer ''0123456789abcdef'',
       LogInfoReceivedSigint, RemoveContainer ''0123456789abcdef'', OsExit 2])
   \<and> SetRawTerminal \<in> set (snd (DockerClient_RunContainer env_interrupted ''0123456789abcdef'' True))
   \<and> RestoreTerminal \<notin> set (snd (DockerClient_RunContainer env_interrupted ''0123456789abcdef'' True))"
  by (simp add: DockerClient_RunContainer_def run_attached_def prefixed_def deferred_def
      env_interrupted_def)

text \<open>
  C9. Interrupt handling. When the run has reached its \<^verbatim>\<open>select\<close> (the container is
  started) and the \<^verbatim>\<open>select\<close> receives the interrupt signal, \<open>RunContainer\<close> logs it,
  calls \<open>RemoveContainer\<close> on the container, logs the error of the removal if there is
  one, and ends the process with exit status 2: it does not return, so it reports no
  error, of the attach or other, to the build.
\<close>

theorem RunContainer_interrupt:
  assumes "attachStdin \<longrightarrow> isTerminalIn env \<and> setRawTerminal env = None \<and> monitorTtySize env = None"
    and "attachHijacked env"
    and "startContainer env = None"
    and "selected env = FromSigch"
  shows "fst (DockerClient_RunContainer env containerID attachStdin) = Exits 2
     \<and> (\<forall>e. fst (DockerClient_RunContainer env containerID attachStdin) \<noteq> Returns e)
     \<and> (\<exists>pre. snd (DockerClient_RunContainer env containerID attachStdin) =
           pre @ [LogInfoReceivedSigint, RemoveContainer containerID]
               @ (case removeContainer env of Some e \<Rightarrow> [LogErrorRemove e] | None \<Rightarrow> [])
               @ [OsExit 2]
         \<and> StartContainer containerID \<in> set pre
         \<and> RemoveContainer containerID \<notin> set pre)"
  using assms
  by (cases attachStdin)
    (simp_all add: DockerClient_RunContainer_def run_attached_def prefixed_def deferred_def)

theorem RunContainer_interrupt_witness:
  "DockerClient_RunContainer env_interrupted_detached ''0123456789abcdef'' False =
     (Exits 2,
      [LogDebugAttachOptions, GoAttachToContainer, ReceiveSuccess,
       StartContainer ''0123456789abcdef'', SignalNotify, GoWaitContainer ''0123456789abcdef'',
       LogInfoReceivedSigint, RemoveContainer ''0123456789abcdef'',
       LogErrorRemove (Failure ''no such container''), OsExit 2])"
proof -
  have h: "attachHijacked env_interrupted_detached"
    "startContainer env_interrupted_detached = None"
    "selected env_interrupted_detached = FromSigch"
    by (simp_all add: env_interrupted_detached_def)
  have "fst (DockerClient_RunContainer env_interrupted_detached ''0123456789abcdef'' False) =
      Exits 2"
    using RunContainer_interrupt [of False env_interrupted_detached "''0123456789abcdef''"] h
    by simp
  moreover have "snd (DockerClient_RunContainer env_interrupted_detached ''0123456789abcdef'' False) =
      [LogDebugAttachOptions, GoAttachToContainer, ReceiveSuccess,
       StartContainer ''0123456789abcdef'', SignalNotify, GoWaitContainer ''0123456789abcdef'',
       LogInfoReceivedSigint, RemoveContainer ''0123456789abcdef'',
       LogErrorRemove (Failure ''no such container''), OsExit 2]"
    by (simp add: DockerClient_RunContainer_def run_attached_def prefixed_def
        env_interrupted_detached_def)
  ultimately show ?thesis
    by (simp add: prod_eq_iff)
qed

text \<open>
  C10. Non-tty attach precondition. Called with \<open>attachStdin\<close> while standard input is
  not a terminal, \<open>RunContainer\<close> returns the error at once: its only event is the log
  line, so there is no attach, no raw mode and no start of the container before it.
\<close>

theorem RunContainer_non_tty:
  "\<not> isTerminalIn env \<Longrightarrow>
   DockerClient_RunContainer env containerID True =
     (Returns (Some NonTtyInput), [LogInfoAttachStdin (take 12 containerID)])"
  by (simp add: DockerClient_RunContainer_def)

theorem RunContainer_non_tty_witness:
  "\<not> isTerminalIn env_piped
   \<and> DockerClient_RunContainer env_piped ''0123456789abcdef'' True =
       (Returns (Some NonTtyInput), [LogInfoAttachStdin ''0123456789ab''])"
proof -
  have h: "\<not> isTerminalIn env_piped"
    by (simp add: env_piped_def)
  from RunContainer_non_tty [OF h, of "''0123456789abcdef''"] h show ?thesis
    by simp
qed

end
